theory Spec2Isabelle
  imports Main "HOL-Library.AList"
begin

section \<open>The Stream cog: temporary streaming permission with a persisted expiry\<close>

text \<open>
  The development embeds \<^verbatim>\<open>bot/exts/moderation/stream.py\<close>. The cog keeps two
  pieces of state: the Redis hash \<^verbatim>\<open>task_cache\<close> (member id to expiry timestamp), which
  survives a restart, and a \<^verbatim>\<open>Scheduler\<close> of pending revocation tasks, which does not.
  Every awaited call to Redis or Discord may raise; the answers of the outside world during
  one call of a command are collected in an environment record, and every call to Redis,
  to Discord and to the scheduler is appended to a trace, in the order in which it is made.
\<close>

subsection \<open>Data\<close>

type_synonym member_id = nat
type_synonym role_id = nat

text \<open>
  A naive \<^verbatim>\<open>datetime\<close> is the number of microseconds between 1970-01-01 00:00:00 and
  the wall-clock reading it stores. A POSIX timestamp (a float of seconds in the source) is
  represented by the number of microseconds it denotes; float rounding is not modelled.
\<close>

type_synonym datetime = int
type_synonym posix = int

record member =
  member_id :: member_id
  member_roles :: "role_id list"

text \<open>The coroutine object handed to the scheduler: \<^verbatim>\<open>self._revoke_streaming_permission(member)\<close>.\<close>

datatype coroutine = Revoke_streaming_permission member

text \<open>
  \<^verbatim>\<open>fetch_member\<close> raises \<^verbatim>\<open>discord.errors.NotFound\<close> or another
  \<^verbatim>\<open>discord.HTTPException\<close>; the first \<^verbatim>\<open>except\<close> clause takes the former, the
  second one the rest.
\<close>

datatype http_error = NotFound | Other_HTTPException

text \<open>
  The exceptions that leave a call. \<^verbatim>\<open>ValueError\<close> stands for a value outside the
  range of \<^verbatim>\<open>datetime\<close> met by \<^verbatim>\<open>timestamp()\<close> or by
  \<^verbatim>\<open>utcfromtimestamp\<close> (for a number very far out of range the latter raises
  \<^verbatim>\<open>OSError\<close> or \<^verbatim>\<open>OverflowError\<close> instead, which nothing catches either);
  \<^verbatim>\<open>OverflowError\<close> is a \<^verbatim>\<open>datetime\<close> sum outside that range.
\<close>

datatype error = RedisError | HTTPException | ValueError | OverflowError

datatype reply =
    Already_can_stream
  | Can_now_stream datetime
  | Changed_to_permanent
  | Permanently_granted
  | Revoked
  | No_permission_to_remove

datatype event =
    Schedule_at datetime member_id
  | Cancel member_id
  | Cache_set member_id posix
  | Cache_delete member_id
  | Cache_items
  | Add_roles member_id role_id
  | Remove_roles member_id role_id
  | Send reply

text \<open>
  A pending task of the scheduler: the due time it was armed with, the instant at which it
  was armed, and the coroutine to run.
\<close>

record task =
  due_at :: datetime
  armed_at :: datetime
  coro :: coroutine

record state =
  task_cache :: "(member_id \<times> posix) list"
  scheduler :: "(member_id \<times> task) list"
  trace :: "event list"

text \<open>
  The environment of one call. \<^verbatim>\<open>Roles_video\<close> and
  \<^verbatim>\<open>default_permission_duration\<close> are the constants \<^verbatim>\<open>Roles.video\<close> and
  \<^verbatim>\<open>VideoPermission.default_permission_duration\<close> of \<^verbatim>\<open>bot.constants\<close>, taken
  as parameters. \<^verbatim>\<open>utc_offset\<close> is the offset of the host's local time zone from UTC in
  seconds, which \<^verbatim>\<open>datetime.timestamp()\<close> consults for a naive datetime.
\<close>

record env =
  utcnow :: datetime
  utc_offset :: int
  Roles_video :: role_id
  default_permission_duration :: int
  get_member :: "member_id \<Rightarrow> member option"
  fetch_member :: "member_id \<Rightarrow> http_error + member"
  set_raises :: "member_id \<Rightarrow> bool"
  delete_raises :: "member_id \<Rightarrow> bool"
  items_raises :: bool
  add_roles_raises :: "member_id \<Rightarrow> bool"
  remove_roles_raises :: "member_id \<Rightarrow> bool"
  send_raises :: bool

definition emit :: "event \<Rightarrow> state \<Rightarrow> state" where
  "emit ev s = s\<lparr>trace := trace s @ [ev]\<rparr>"

subsection \<open>Time\<close>

definition timedelta_minutes :: "int \<Rightarrow> int" where
  "timedelta_minutes n = n * 60 * 1000000"

text \<open>
  A \<^verbatim>\<open>datetime\<close> lies between 0001-01-01 00:00:00 and 9999-12-31 23:59:59.999999.
\<close>

definition min_datetime :: datetime where
  "min_datetime = - 62135596800000000"

definition max_datetime :: datetime where
  "max_datetime = 253402300799999999"

definition datetime_in_range :: "datetime \<Rightarrow> bool" where
  "datetime_in_range d = (min_datetime \<le> d \<and> d \<le> max_datetime)"

text \<open>
  \<^verbatim>\<open>datetime.timestamp()\<close> of a naive datetime reads it as local time. To find the
  instant it looks at three readings, each of which must be a \<^verbatim>\<open>datetime\<close>, and raises
  \<^verbatim>\<open>ValueError\<close> otherwise: the datetime itself, the datetime shifted by the host's
  offset, and the datetime a day earlier (the search for an earlier fold). The host's zone
  has one fixed offset. \<^verbatim>\<open>datetime.utcfromtimestamp\<close> returns the naive UTC reading
  of a timestamp and raises when that is no \<^verbatim>\<open>datetime\<close>.
\<close>

definition timestamp :: "env \<Rightarrow> datetime \<Rightarrow> error + posix" where
  "timestamp e d =
     (if datetime_in_range d
         \<and> datetime_in_range ((d div 1000000 + utc_offset e) * 1000000)
         \<and> datetime_in_range ((d div 1000000 - 86400) * 1000000)
      then Inr (d - utc_offset e * 1000000)
      else Inl ValueError)"

definition utcfromtimestamp :: "posix \<Rightarrow> error + datetime" where
  "utcfromtimestamp v = (if datetime_in_range v then Inr v else Inl ValueError)"

subsection \<open>The Redis cache\<close>

definition cache_set :: "env \<Rightarrow> member_id \<Rightarrow> posix \<Rightarrow> state \<Rightarrow> (error + unit) \<times> state" where
  "cache_set e k v s =
     (let s1 = emit (Cache_set k v) s
      in if set_raises e k then (Inl RedisError, s1)
         else (Inr (), s1\<lparr>task_cache := AList.update k v (task_cache s1)\<rparr>))"

definition cache_delete :: "env \<Rightarrow> member_id \<Rightarrow> state \<Rightarrow> (error + unit) \<times> state" where
  "cache_delete e k s =
     (let s1 = emit (Cache_delete k) s
      in if delete_raises e k then (Inl RedisError, s1)
         else (Inr (), s1\<lparr>task_cache := AList.delete k (task_cache s1)\<rparr>))"

definition cache_items :: "env \<Rightarrow> state \<Rightarrow> (error + (member_id \<times> posix) list) \<times> state" where
  "cache_items e s =
     (let s1 = emit Cache_items s
      in if items_raises e then (Inl RedisError, s1) else (Inr (task_cache s1), s1))"

subsection \<open>Discord\<close>

definition add_roles :: "env \<Rightarrow> member \<Rightarrow> role_id \<Rightarrow> state \<Rightarrow> (error + unit) \<times> state" where
  "add_roles e m r s =
     (let s1 = emit (Add_roles (member_id m) r) s
      in if add_roles_raises e (member_id m) then (Inl HTTPException, s1) else (Inr (), s1))"

definition remove_roles :: "env \<Rightarrow> member \<Rightarrow> role_id \<Rightarrow> state \<Rightarrow> (error + unit) \<times> state" where
  "remove_roles e m r s =
     (let s1 = emit (Remove_roles (member_id m) r) s
      in if remove_roles_raises e (member_id m) then (Inl HTTPException, s1) else (Inr (), s1))"

definition send :: "env \<Rightarrow> reply \<Rightarrow> state \<Rightarrow> (error + unit) \<times> state" where
  "send e r s =
     (let s1 = emit (Send r) s
      in if send_raises e then (Inl HTTPException, s1) else (Inr (), s1))"

subsection \<open>The scheduler\<close>

text \<open>
  Modelled from the spec: the class \<^verbatim>\<open>Scheduler\<close> of \<^verbatim>\<open>bot.utils.scheduling\<close> is
  missing. Per entity at most one action is pending; arming an entity that is pending
  invalidates the prior timer first and then starts the new one; a due time in the past
  gets a zero-delay timer; cancelling invalidates the timer, does not touch the durable
  record, and is a no-op without error for an entity that is not pending; the pending query
  is a membership check. When a timer elapses the stored action is invoked, its failure is
  the action's own concern, and the entity is unscheduled afterwards.
\<close>

definition schedule_at :: "env \<Rightarrow> datetime \<Rightarrow> member_id \<Rightarrow> coroutine \<Rightarrow> state \<Rightarrow> state" where
  "schedule_at e time task_id coroutine s =
     (emit (Schedule_at time task_id) s)
       \<lparr>scheduler :=
          (task_id, \<lparr>due_at = time, armed_at = utcnow e, coro = coroutine\<rparr>)
            # AList.delete task_id (scheduler s)\<rparr>"

definition cancel :: "member_id \<Rightarrow> state \<Rightarrow> state" where
  "cancel task_id s = (emit (Cancel task_id) s)\<lparr>scheduler := AList.delete task_id (scheduler s)\<rparr>"

definition contains :: "member_id \<Rightarrow> state \<Rightarrow> bool" where
  "contains task_id s = (map_of (scheduler s) task_id \<noteq> None)"

definition timer_delay :: "task \<Rightarrow> int" where
  "timer_delay t = max 0 (due_at t - armed_at t)"

definition elapsed :: "env \<Rightarrow> task \<Rightarrow> bool" where
  "elapsed e t = (armed_at t + timer_delay t \<le> utcnow e)"

subsection \<open>The cog\<close>

definition already_allowed :: "env \<Rightarrow> member \<Rightarrow> bool" where
  "already_allowed e m = list_ex (\<lambda>role. Roles_video e = role) (member_roles m)"

definition revoke_streaming_permission :: "env \<Rightarrow> member \<Rightarrow> state \<Rightarrow> (error + unit) \<times> state" where
  "revoke_streaming_permission e m s =
     (case cache_delete e (member_id m) s of
        (Inl err, s1) \<Rightarrow> (Inl err, s1)
      | (Inr _, s1) \<Rightarrow> remove_roles e m (Roles_video e) s1)"

fun run_coroutine :: "env \<Rightarrow> coroutine \<Rightarrow> state \<Rightarrow> (error + unit) \<times> state" where
  "run_coroutine e (Revoke_streaming_permission m) s = revoke_streaming_permission e m s"

text \<open>The timer of \<^verbatim>\<open>task_id\<close> fires (scheduler side modelled from the spec, see above).\<close>

definition fire :: "env \<Rightarrow> member_id \<Rightarrow> state \<Rightarrow> state" where
  "fire e task_id s =
     (case map_of (scheduler s) task_id of
        None \<Rightarrow> s
      | Some t \<Rightarrow>
          if elapsed e t
          then (let s1 = snd (run_coroutine e (coro t) s)
                in s1\<lparr>scheduler := AList.delete task_id (scheduler s1)\<rparr>)
          else s)"

text \<open>
  Lines 59 to 65, reached with the member from the guild cache or from the fetch: the stored
  timestamp is decoded, outside any \<^verbatim>\<open>try\<close>, and the revocation is scheduled.
\<close>

definition schedule_reloaded ::
  "env \<Rightarrow> member_id \<Rightarrow> posix \<Rightarrow> member \<Rightarrow> state \<Rightarrow> (error + unit) \<times> state" where
  "schedule_reloaded e key val member s =
     (case utcfromtimestamp val of
        Inl err \<Rightarrow> (Inl err, s)
      | Inr revoke_time \<Rightarrow>
          (Inr (), schedule_at e revoke_time key (Revoke_streaming_permission member) s))"

text \<open>
  The body of the \<^verbatim>\<open>for\<close> loop, lines 44 to 65, for one item. \<open>Inr ()\<close> is the
  end of the body or a \<^verbatim>\<open>continue\<close>; \<open>Inl\<close> is an exception that leaves the loop.
  The reload has waited for the guild, so \<^verbatim>\<open>get_guild\<close> yields it; the stored value
  is a number.
\<close>

definition reload_step :: "env \<Rightarrow> member_id \<Rightarrow> posix \<Rightarrow> state \<Rightarrow> (error + unit) \<times> state" where
  "reload_step e key val s =
     (case get_member e key of
        Some member \<Rightarrow> schedule_reloaded e key val member s
      | None \<Rightarrow>
          (case fetch_member e key of
             Inl NotFound \<Rightarrow> cache_delete e key s
           | Inl Other_HTTPException \<Rightarrow> (Inr (), s)
           | Inr member \<Rightarrow> schedule_reloaded e key val member s))"

fun reload_loop :: "env \<Rightarrow> (member_id \<times> posix) list \<Rightarrow> state \<Rightarrow> (error + unit) \<times> state" where
  "reload_loop e [] s = (Inr (), s)"
| "reload_loop e ((key, val) # items) s =
     (case reload_step e key val s of
        (Inl err, s1) \<Rightarrow> (Inl err, s1)
      | (Inr _, s1) \<Rightarrow> reload_loop e items s1)"

definition reload_tasks_from_redis :: "env \<Rightarrow> state \<Rightarrow> (error + unit) \<times> state" where
  "reload_tasks_from_redis e s =
     (case cache_items e s of
        (Inl err, s1) \<Rightarrow> (Inl err, s1)
      | (Inr items, s1) \<Rightarrow> reload_loop e items s1)"

text \<open>
  \<^verbatim>\<open>Stream.__init__\<close>: a fresh scheduler; the content of the Redis cache is whatever
  the previous run of the process left there.
\<close>

definition Stream_init :: "(member_id \<times> posix) list \<Rightarrow> state" where
  "Stream_init persisted = \<lparr>task_cache = persisted, scheduler = [], trace = []\<rparr>"

text \<open>
  Lines 87 to 90: the expiry is the argument or, without one, the default duration from
  now; that sum raises \<^verbatim>\<open>OverflowError\<close> when it is no \<^verbatim>\<open>datetime\<close>.
  \<^verbatim>\<open>format_infraction_with_duration\<close> of \<^verbatim>\<open>bot.utils.time\<close>, which is missing, only
  renders the expiry for the reply and is taken to return.
\<close>

definition duration_or_default :: "env \<Rightarrow> datetime option \<Rightarrow> error + datetime" where
  "duration_or_default e duration =
     (case duration of
        Some d \<Rightarrow> Inr d
      | None \<Rightarrow>
          (let d = utcnow e + timedelta_minutes (default_permission_duration e)
           in if datetime_in_range d then Inr d else Inl OverflowError))"

definition stream :: "env \<Rightarrow> member \<Rightarrow> datetime option \<Rightarrow> state \<Rightarrow> (error + unit) \<times> state" where
  "stream e m duration s =
     (case duration_or_default e duration of
        Inl err \<Rightarrow> (Inl err, s)
      | Inr duration \<Rightarrow>
          if already_allowed e m then send e Already_can_stream s
          else
            (let s1 = schedule_at e duration (member_id m) (Revoke_streaming_permission m) s
             in case timestamp e duration of
                  Inl err \<Rightarrow> (Inl err, s1)
                | Inr posix \<Rightarrow>
                    (case cache_set e (member_id m) posix s1 of
                       (Inl err, s2) \<Rightarrow> (Inl err, s2)
                     | (Inr _, s2) \<Rightarrow>
                         (case add_roles e m (Roles_video e) s2 of
                            (Inl err, s3) \<Rightarrow> (Inl err, s3)
                          | (Inr _, s3) \<Rightarrow> send e (Can_now_stream duration) s3))))"

definition permanentstream :: "env \<Rightarrow> member \<Rightarrow> state \<Rightarrow> (error + unit) \<times> state" where
  "permanentstream e m s =
     (if already_allowed e m then
        (if contains (member_id m) s then
           (case cache_delete e (member_id m) (cancel (member_id m) s) of
              (Inl err, s2) \<Rightarrow> (Inl err, s2)
            | (Inr _, s2) \<Rightarrow> send e Changed_to_permanent s2)
         else send e Already_can_stream s)
      else
        (case add_roles e m (Roles_video e) s of
           (Inl err, s1) \<Rightarrow> (Inl err, s1)
         | (Inr _, s1) \<Rightarrow> send e Permanently_granted s1))"

definition revokestream :: "env \<Rightarrow> member \<Rightarrow> state \<Rightarrow> (error + unit) \<times> state" where
  "revokestream e m s =
     (if already_allowed e m then
        (case revoke_streaming_permission e m
                (if contains (member_id m) s then cancel (member_id m) s else s) of
           (Inl err, s2) \<Rightarrow> (Inl err, s2)
         | (Inr _, s2) \<Rightarrow> send e Revoked s2)
      else send e No_permission_to_remove s)"

subsection \<open>Resolving a member\<close>

text \<open>The guild cache or, failing that, a fetch yields the member.\<close>

definition resolves :: "env \<Rightarrow> member_id \<Rightarrow> member \<Rightarrow> bool" where
  "resolves e key m =
     (get_member e key = Some m \<or> (get_member e key = None \<and> fetch_member e key = Inr m))"

subsection \<open>Runs of the cog\<close>

text \<open>
  What can happen to a running cog, one call at a time: a command arrives, a timer fires,
  or the reload task runs. Each call meets its own environment, and an exception ends the
  call, not the run.
\<close>

datatype call =
    Stream member "datetime option"
  | Permanentstream member
  | Revokestream member
  | Timer_fires member_id
  | Reload

fun step :: "env \<Rightarrow> call \<Rightarrow> state \<Rightarrow> state" where
  "step e (Stream m duration) s = snd (stream e m duration s)"
| "step e (Permanentstream m) s = snd (permanentstream e m s)"
| "step e (Revokestream m) s = snd (revokestream e m s)"
| "step e (Timer_fires task_id) s = fire e task_id s"
| "step e Reload s = snd (reload_tasks_from_redis e s)"

fun run :: "(env \<times> call) list \<Rightarrow> state \<Rightarrow> state" where
  "run [] s = s"
| "run ((e, c) # cs) s = run cs (step e c s)"

subsection \<open>Concrete inputs\<close>

text \<open>
  A host on UTC where every call succeeds and the guild cache knows nobody; the video role
  has id 9 and the default duration is five minutes.
\<close>

definition quiet_env :: env where
  "quiet_env =
     \<lparr>utcnow = 1000, utc_offset = 0, Roles_video = 9, default_permission_duration = 5,
      get_member = (\<lambda>_. None), fetch_member = (\<lambda>_. Inl NotFound),
      set_raises = (\<lambda>_. False), delete_raises = (\<lambda>_. False), items_raises = False,
      add_roles_raises = (\<lambda>_. False), remove_roles_raises = (\<lambda>_. False),
      send_raises = False\<rparr>"


definition member7 :: member where
  "member7 = \<lparr>member_id = 7, member_roles = []\<rparr>"

definition member7_video :: member where
  "member7_video = \<lparr>member_id = 7, member_roles = [3, 9]\<rparr>"

text \<open>Member 7 holds a temporary permission that expires at 5000, armed at 1000.\<close>

definition pending7 :: state where
  "pending7 =
     \<lparr>task_cache = [(7, 5000)],
      scheduler = [(7, \<lparr>due_at = 5000, armed_at = 1000,
                        coro = Revoke_streaming_permission \<lparr>member_id = 7, member_roles = []\<rparr>\<rparr>)],
      trace = []\<rparr>"

text \<open>
  A restart at 1000. The guild cache knows member 5; Discord finds members 3 and 6, reports
  member 2 as gone and fails on member 4. The store holds a record for each, in this order:
  5, 4, 2, 3, 6; the records of members 2 and 3 are past due.
\<close>

definition restart_env :: env where
  "restart_env =
     quiet_env
       \<lparr>get_member := (\<lambda>k. if k = 5 then Some \<lparr>member_id = 5, member_roles = [9]\<rparr> else None),
        fetch_member :=
          (\<lambda>k. if k = 3 then Inr \<lparr>member_id = 3, member_roles = [9]\<rparr>
               else if k = 6 then Inr \<lparr>member_id = 6, member_roles = [9]\<rparr>
               else if k = 4 then Inl Other_HTTPException
               else Inl NotFound)\<rparr>"

definition persisted5 :: "(member_id \<times> posix) list" where
  "persisted5 = [(5, 5000), (4, 9000), (2, 500), (3, 700), (6, 8000)]"

text \<open>
  A host one hour east of UTC, at 2021-01-01 12:00:00 UTC; the guild cache knows member 7.
\<close>

definition utc_plus_one_env :: env where
  "utc_plus_one_env =
     quiet_env
       \<lparr>utcnow := 1609502400000000, utc_offset := 3600,
        get_member := (\<lambda>k. if k = 7 then Some member7_video else None)\<rparr>"

section \<open>Auxiliary facts\<close>

lemmas prims = cache_set_def cache_delete_def cache_items_def add_roles_def remove_roles_def
  send_def emit_def schedule_at_def cancel_def

lemma emit_fields [simp]:
  "task_cache (emit ev s) = task_cache s" "scheduler (emit ev s) = scheduler s"
  by (simp_all add: emit_def)

lemma reload_loop_append:
  "reload_loop e (xs @ ys) s =
     (case reload_loop e xs s of
        (Inl err, s1) \<Rightarrow> (Inl err, s1)
      | (Inr u, s1) \<Rightarrow> reload_loop e ys s1)"
proof (induction xs arbitrary: s)
  case Nil
  show ?case by simp
next
  case (Cons x xs)
  obtain key val where x: "x = (key, val)" by (cases x)
  show ?case
    by (simp add: x Cons.IH split: prod.splits sum.splits)
qed

lemma reload_loop_reached:
  "fst (reload_loop e pre s) = Inr () \<Longrightarrow>
     reload_loop e (pre @ (key, val) # post) s =
       (case reload_step e key val (snd (reload_loop e pre s)) of
          (Inl err, s1) \<Rightarrow> (Inl err, s1)
        | (Inr u, s1) \<Rightarrow> reload_loop e post s1)"
  by (cases "reload_loop e pre s") (simp add: reload_loop_append)

lemma reload_tasks_unfold:
  "reload_tasks_from_redis e s =
     (if items_raises e then (Inl RedisError, emit Cache_items s)
      else reload_loop e (task_cache s) (emit Cache_items s))"
  by (simp add: reload_tasks_from_redis_def cache_items_def Let_def emit_def)

subsection \<open>One pass\<close>

lemma schedule_reloaded_decoded:
  "utcfromtimestamp val = Inr d \<Longrightarrow>
     schedule_reloaded e key val m s =
       (Inr (), schedule_at e d key (Revoke_streaming_permission m) s)"
  by (simp add: schedule_reloaded_def)

lemma step_resolved:
  "resolves e key m \<Longrightarrow> reload_step e key val s = schedule_reloaded e key val m s"
  by (auto simp: reload_step_def resolves_def)

lemma step_not_found:
  "get_member e key = None \<Longrightarrow> fetch_member e key = Inl NotFound \<Longrightarrow>
     reload_step e key val s = cache_delete e key s"
  by (simp add: reload_step_def)

lemma step_transient:
  "get_member e key = None \<Longrightarrow> fetch_member e key = Inl Other_HTTPException \<Longrightarrow>
     reload_step e key val s = (Inr (), s)"
  by (simp add: reload_step_def)

lemmas step_splits = option.splits sum.splits http_error.splits

lemma step_scheduler_other:
  "key \<noteq> x \<Longrightarrow> map_of (scheduler (snd (reload_step e key val s))) x = map_of (scheduler s) x"
  by (simp add: reload_step_def schedule_reloaded_def prims Let_def split: step_splits)

lemma step_scheduler_unresolved:
  "get_member e key = None \<Longrightarrow> \<forall>m. fetch_member e key \<noteq> Inr m \<Longrightarrow>
     scheduler (snd (reload_step e key val s)) = scheduler s"
  by (simp add: reload_step_def prims Let_def split: step_splits)

lemma step_scheduler_pending:
  "map_of (scheduler s) x \<noteq> None \<Longrightarrow> map_of (scheduler (snd (reload_step e key val s))) x \<noteq> None"
  by (cases "key = x")
     (auto simp: reload_step_def schedule_reloaded_def prims Let_def split: step_splits)

lemma step_cache_other:
  "key \<noteq> x \<Longrightarrow> map_of (task_cache (snd (reload_step e key val s))) x = map_of (task_cache s) x"
  by (simp add: reload_step_def schedule_reloaded_def prims Let_def split: step_splits)

lemma step_cache_kept:
  "\<not> (get_member e key = None \<and> fetch_member e key = Inl NotFound) \<Longrightarrow>
     task_cache (snd (reload_step e key val s)) = task_cache s"
  by (auto simp: reload_step_def schedule_reloaded_def prims Let_def split: step_splits)

lemma step_cache_absent_stays:
  "map_of (task_cache s) x = None \<Longrightarrow> map_of (task_cache (snd (reload_step e key val s))) x = None"
  by (simp add: reload_step_def schedule_reloaded_def prims Let_def AList.delete_conv'
        split: step_splits)

lemma step_distinct:
  "distinct (map fst (scheduler s)) \<Longrightarrow> distinct (map fst (scheduler (snd (reload_step e key val s))))"
  by (simp add: reload_step_def schedule_reloaded_def prims Let_def AList.distinct_delete
        AList.delete_notin_dom split: step_splits)

lemma step_trace_no_schedule:
  "get_member e x = None \<Longrightarrow> \<forall>m. fetch_member e x \<noteq> Inr m \<Longrightarrow>
   Schedule_at t x \<in> set (trace (snd (reload_step e key val s))) \<Longrightarrow>
     Schedule_at t x \<in> set (trace s)"
  by (cases "key = x")
     (auto simp: reload_step_def schedule_reloaded_def prims Let_def split: step_splits if_splits)

subsection \<open>The reload loop as a whole\<close>

text \<open>
  Each of these follows one fact through the loop, whether the loop ends or an exception
  leaves it.
\<close>

lemma loop_invariant:
  assumes step: "\<And>key val s. (key, val) \<in> set items \<Longrightarrow> P s \<Longrightarrow> P (snd (reload_step e key val s))"
    and start: "P s"
  shows "P (snd (reload_loop e items s))"
  using assms
proof (induction items arbitrary: s)
  case Nil
  then show ?case by simp
next
  case (Cons it items)
  obtain key val where it: "it = (key, val)" by (cases it)
  have "P (snd (reload_step e key val s))"
    using Cons.prems it by simp
  moreover have "\<And>key val s. (key, val) \<in> set items \<Longrightarrow> P s \<Longrightarrow> P (snd (reload_step e key val s))"
    using Cons.prems(1) by simp
  ultimately show ?case using Cons.IH it
    by (cases "reload_step e key val s") (auto split: sum.splits)
qed

lemma loop_not_armed:
  assumes "x \<notin> fst ` set items \<or> (get_member e x = None \<and> (\<forall>m. fetch_member e x \<noteq> Inr m))"
  shows "map_of (scheduler (snd (reload_loop e items s))) x = map_of (scheduler s) x"
proof (rule loop_invariant [where P = "\<lambda>s'. map_of (scheduler s') x = map_of (scheduler s) x"])
  fix key val and s' :: state
  assume "(key, val) \<in> set items" and keep: "map_of (scheduler s') x = map_of (scheduler s) x"
  have "map_of (scheduler (snd (reload_step e key val s'))) x = map_of (scheduler s') x"
  proof (cases "key = x")
    case True
    with assms \<open>(key, val) \<in> set items\<close>
    have "get_member e key = None" and "\<forall>m. fetch_member e key \<noteq> Inr m" by force+
    then show ?thesis by (simp add: step_scheduler_unresolved)
  next
    case False
    then show ?thesis by (rule step_scheduler_other)
  qed
  with keep show "map_of (scheduler (snd (reload_step e key val s'))) x = map_of (scheduler s) x"
    by simp
qed simp

lemma loop_cache_kept:
  assumes "x \<notin> fst ` set items \<or> \<not> (get_member e x = None \<and> fetch_member e x = Inl NotFound)"
  shows "map_of (task_cache (snd (reload_loop e items s))) x = map_of (task_cache s) x"
proof (rule loop_invariant [where P = "\<lambda>s'. map_of (task_cache s') x = map_of (task_cache s) x"])
  fix key val and s' :: state
  assume "(key, val) \<in> set items" and keep: "map_of (task_cache s') x = map_of (task_cache s) x"
  have "map_of (task_cache (snd (reload_step e key val s'))) x = map_of (task_cache s') x"
  proof (cases "key = x")
    case True
    with assms \<open>(key, val) \<in> set items\<close>
    have "\<not> (get_member e key = None \<and> fetch_member e key = Inl NotFound)" by force
    then show ?thesis by (simp add: step_cache_kept)
  next
    case False
    then show ?thesis by (rule step_cache_other)
  qed
  with keep show "map_of (task_cache (snd (reload_step e key val s'))) x = map_of (task_cache s) x"
    by simp
qed simp

lemma loop_cache_absent_stays:
  "map_of (task_cache s) x = None \<Longrightarrow> map_of (task_cache (snd (reload_loop e items s))) x = None"
  by (rule loop_invariant [where P = "\<lambda>s'. map_of (task_cache s') x = None"])
     (simp_all add: step_cache_absent_stays)

lemma loop_pending_stays:
  "map_of (scheduler s) x \<noteq> None \<Longrightarrow> map_of (scheduler (snd (reload_loop e items s))) x \<noteq> None"
  by (rule loop_invariant [where P = "\<lambda>s'. map_of (scheduler s') x \<noteq> None"])
     (simp_all add: step_scheduler_pending)

lemma loop_distinct:
  "distinct (map fst (scheduler s)) \<Longrightarrow> distinct (map fst (scheduler (snd (reload_loop e items s))))"
  by (rule loop_invariant [where P = "\<lambda>s'. distinct (map fst (scheduler s'))"])
     (simp_all add: step_distinct)

lemma loop_trace_no_schedule:
  assumes "get_member e x = None" and "\<forall>m. fetch_member e x \<noteq> Inr m"
    and "Schedule_at t x \<notin> set (trace s)"
  shows "Schedule_at t x \<notin> set (trace (snd (reload_loop e items s)))"
  by (rule loop_invariant [where P = "\<lambda>s'. Schedule_at t x \<notin> set (trace s')"])
     (use assms step_trace_no_schedule in blast)+

subsection \<open>Small facts\<close>

lemma delete_not_pending: "map_of al k = None \<Longrightarrow> AList.delete k al = al"
  by (simp add: map_of_eq_None_iff)


lemmas time_defs = timestamp_def utcfromtimestamp_def datetime_in_range_def min_datetime_def
  max_datetime_def duration_or_default_def timedelta_minutes_def

subsection \<open>One pending task per member\<close>

lemma distinct_at_most_one:
  "distinct (map fst al) \<Longrightarrow> length (filter (\<lambda>p. fst p = k) al) \<le> 1"
proof (induction al)
  case Nil
  show ?case by simp
next
  case (Cons a al)
  show ?case
  proof (cases "fst a = k")
    case True
    with Cons.prems have "k \<notin> fst ` set al" by auto
    then have "filter (\<lambda>p. fst p = k) al = []" by (auto simp: filter_empty_conv)
    with True show ?thesis by simp
  next
    case False
    with Cons show ?thesis by simp
  qed
qed

lemma filter_key_delete: "filter (\<lambda>p. fst p = k) (AList.delete k al) = []"
  by (auto simp: filter_empty_conv AList.delete_eq)

lemma stream_scheduler:
  "scheduler (snd (stream e m duration s)) =
     (case duration_or_default e duration of
        Inl err \<Rightarrow> scheduler s
      | Inr d \<Rightarrow>
          if already_allowed e m then scheduler s
          else scheduler (schedule_at e d (member_id m) (Revoke_streaming_permission m) s))"
  by (simp add: stream_def prims Let_def split: sum.splits)

lemma permanentstream_scheduler:
  "scheduler (snd (permanentstream e m s)) =
     (if already_allowed e m \<and> contains (member_id m) s
      then AList.delete (member_id m) (scheduler s) else scheduler s)"
  by (simp add: permanentstream_def prims Let_def)

lemma revokestream_scheduler:
  "scheduler (snd (revokestream e m s)) =
     (if already_allowed e m \<and> contains (member_id m) s
      then AList.delete (member_id m) (scheduler s) else scheduler s)"
  by (simp add: revokestream_def revoke_streaming_permission_def prims Let_def)

lemma run_coroutine_scheduler: "scheduler (snd (run_coroutine e c s)) = scheduler s"
  by (cases c) (simp add: revoke_streaming_permission_def prims Let_def)

lemma fire_scheduler:
  "scheduler (fire e k s) = scheduler s \<or> scheduler (fire e k s) = AList.delete k (scheduler s)"
  by (simp add: fire_def run_coroutine_scheduler Let_def split: option.splits)

lemma step_keeps_distinct:
  "distinct (map fst (scheduler s)) \<Longrightarrow> distinct (map fst (scheduler (step e c s)))"
proof (cases c)
  case (Stream m d)
  assume "distinct (map fst (scheduler s))"
  with Stream show ?thesis
    by (simp add: stream_scheduler schedule_at_def AList.distinct_delete AList.delete_notin_dom
          split: sum.splits)
next
  case (Permanentstream m)
  assume "distinct (map fst (scheduler s))"
  with Permanentstream show ?thesis
    by (simp add: permanentstream_scheduler AList.distinct_delete)
next
  case (Revokestream m)
  assume "distinct (map fst (scheduler s))"
  with Revokestream show ?thesis
    by (simp add: revokestream_scheduler AList.distinct_delete)
next
  case (Timer_fires k)
  assume "distinct (map fst (scheduler s))"
  with Timer_fires fire_scheduler[of e k s] show ?thesis
    by (auto simp: AList.distinct_delete)
next
  case Reload
  assume "distinct (map fst (scheduler s))"
  with Reload show ?thesis
    by (simp add: reload_tasks_unfold loop_distinct)
qed

lemma run_keeps_distinct:
  "distinct (map fst (scheduler s)) \<Longrightarrow> distinct (map fst (scheduler (run calls s)))"
proof (induction calls arbitrary: s)
  case Nil
  then show ?case by simp
next
  case (Cons a calls)
  obtain e c where a: "a = (e, c)" by (cases a)
  from Cons.prems have "distinct (map fst (scheduler (step e c s)))"
    by (rule step_keeps_distinct)
  with Cons.IH a show ?case by simp
qed

subsection \<open>The restart example\<close>

lemma restart_env_answers:
  "get_member restart_env 5 = Some \<lparr>member_id = 5, member_roles = [9]\<rparr>"
  "get_member restart_env 2 = None" "fetch_member restart_env 2 = Inl NotFound"
  "get_member restart_env 3 = None"
  "fetch_member restart_env 3 = Inr \<lparr>member_id = 3, member_roles = [9]\<rparr>"
  "get_member restart_env 4 = None" "fetch_member restart_env 4 = Inl Other_HTTPException"
  "get_member restart_env 6 = None"
  "fetch_member restart_env 6 = Inr \<lparr>member_id = 6, member_roles = [9]\<rparr>"
  "\<not> items_raises restart_env" "\<not> delete_raises restart_env k" "utcnow restart_env = 1000"
  "Roles_video restart_env = 9"
  by (simp_all add: restart_env_def quiet_env_def)

lemma restart_state:
  "task_cache (Stream_init persisted5) = [(5, 5000), (4, 9000), (2, 500), (3, 700), (6, 8000)]"
  "scheduler (Stream_init persisted5) = []" "trace (Stream_init persisted5) = []"
  by (simp_all add: Stream_init_def persisted5_def)

lemmas restart_eval = reload_step_def schedule_reloaded_def restart_env_answers restart_state
  prims Let_def utcfromtimestamp_def datetime_in_range_def min_datetime_def max_datetime_def

lemma restart_reaches_4:
  "fst (reload_loop restart_env [(5, 5000)] (emit Cache_items (Stream_init persisted5))) = Inr ()"
  by (simp add: restart_eval)

lemma restart_reaches_2:
  "fst (reload_loop restart_env [(5, 5000), (4, 9000)] (emit Cache_items (Stream_init persisted5)))
     = Inr ()"
  by (simp add: restart_eval)

lemma restart_reaches_3:
  "fst (reload_loop restart_env [(5, 5000), (4, 9000), (2, 500)]
          (emit Cache_items (Stream_init persisted5))) = Inr ()"
  by (simp add: restart_eval)

section \<open>Properties\<close>

subsection \<open>The revoke action\<close>

text \<open>
  C10. In \<^verbatim>\<open>_revoke_streaming_permission\<close> the record of the member is deleted before
  the role removal is issued. When the delete succeeds, the removal starts from a state
  in which the record is already absent, the trace shows the delete ahead of the removal,
  and the record is absent at the end whether or not the removal raises. When the delete
  raises, the action ends there and no removal is issued. A timer that fires runs this
  action and adds nothing to its trace.
\<close>

theorem revoke_deletes_record_before_removal:
  "(delete_raises e (member_id m) \<longrightarrow>
      revoke_streaming_permission e m s = (Inl RedisError, emit (Cache_delete (member_id m)) s))
   \<and> (\<not> delete_raises e (member_id m) \<longrightarrow>
        fst (cache_delete e (member_id m) s) = Inr ()
        \<and> map_of (task_cache (snd (cache_delete e (member_id m) s))) (member_id m) = None
        \<and> revoke_streaming_permission e m s
            = remove_roles e m (Roles_video e) (snd (cache_delete e (member_id m) s))
        \<and> map_of (task_cache (snd (revoke_streaming_permission e m s))) (member_id m) = None
        \<and> trace (snd (revoke_streaming_permission e m s))
            = trace s @ [Cache_delete (member_id m), Remove_roles (member_id m) (Roles_video e)])
   \<and> (map_of (scheduler s) k = Some t \<and> elapsed e t \<and> coro t = Revoke_streaming_permission m \<longrightarrow>
        trace (fire e k s) = trace (snd (revoke_streaming_permission e m s)))"
proof -
  have down: "delete_raises e (member_id m) \<longrightarrow>
      revoke_streaming_permission e m s = (Inl RedisError, emit (Cache_delete (member_id m)) s)"
    by (simp add: revoke_streaming_permission_def cache_delete_def Let_def)
  have first: "\<not> delete_raises e (member_id m) \<longrightarrow>
        fst (cache_delete e (member_id m) s) = Inr ()
        \<and> map_of (task_cache (snd (cache_delete e (member_id m) s))) (member_id m) = None"
    by (simp add: cache_delete_def emit_def Let_def AList.delete_conv')
  have second: "\<not> delete_raises e (member_id m) \<longrightarrow>
        revoke_streaming_permission e m s
            = remove_roles e m (Roles_video e) (snd (cache_delete e (member_id m) s))"
    by (simp add: revoke_streaming_permission_def cache_delete_def Let_def)
  have after: "\<not> delete_raises e (member_id m) \<longrightarrow>
        map_of (task_cache (snd (revoke_streaming_permission e m s))) (member_id m) = None
        \<and> trace (snd (revoke_streaming_permission e m s))
            = trace s @ [Cache_delete (member_id m), Remove_roles (member_id m) (Roles_video e)]"
    by (simp add: revoke_streaming_permission_def prims Let_def AList.delete_conv')
  have fired: "map_of (scheduler s) k = Some t \<and> elapsed e t
                 \<and> coro t = Revoke_streaming_permission m \<longrightarrow>
        trace (fire e k s) = trace (snd (revoke_streaming_permission e m s))"
    by (simp add: fire_def Let_def)
  from down first second after fired show ?thesis by blast
qed

text \<open>
  The action on a host where the role removal raises, on one where Redis is down, and run
  by the timer of member 7 at 6000.
\<close>

theorem revoke_deletes_record_before_removal_witness:
  "\<not> delete_raises (quiet_env\<lparr>remove_roles_raises := (\<lambda>_. True)\<rparr>) (member_id member7_video)
   \<and> map_of (task_cache (snd (revoke_streaming_permission
         (quiet_env\<lparr>remove_roles_raises := (\<lambda>_. True)\<rparr>) member7_video pending7))) 7 = None
   \<and> trace (snd (revoke_streaming_permission
         (quiet_env\<lparr>remove_roles_raises := (\<lambda>_. True)\<rparr>) member7_video pending7))
       = [Cache_delete 7, Remove_roles 7 9]
   \<and> delete_raises (quiet_env\<lparr>delete_raises := (\<lambda>_. True)\<rparr>) (member_id member7_video)
   \<and> trace (snd (revoke_streaming_permission
         (quiet_env\<lparr>delete_raises := (\<lambda>_. True)\<rparr>) member7_video pending7))
       = [Cache_delete 7]
   \<and> elapsed (quiet_env\<lparr>utcnow := 6000\<rparr>)
        \<lparr>due_at = 5000, armed_at = 1000, coro = Revoke_streaming_permission member7\<rparr>
   \<and> trace (fire (quiet_env\<lparr>utcnow := 6000\<rparr>) 7 pending7) = [Cache_delete 7, Remove_roles 7 9]"
proof -
  let ?up = "quiet_env\<lparr>remove_roles_raises := (\<lambda>_. True)\<rparr>"
  let ?down = "quiet_env\<lparr>delete_raises := (\<lambda>_. True)\<rparr>"
  let ?late = "quiet_env\<lparr>utcnow := 6000\<rparr>"
  let ?t = "\<lparr>due_at = 5000, armed_at = 1000, coro = Revoke_streaming_permission member7\<rparr>"
  have up: "\<not> delete_raises ?up (member_id member7_video)"
    by (simp add: quiet_env_def)
  have down: "delete_raises ?down (member_id member7_video)"
    by (simp add: quiet_env_def)
  have late: "map_of (scheduler pending7) 7 = Some ?t \<and> elapsed ?late ?t
                \<and> coro ?t = Revoke_streaming_permission member7
                \<and> \<not> delete_raises ?late (member_id member7)"
    by (simp add: pending7_def member7_def quiet_env_def elapsed_def timer_delay_def)
  from up revoke_deletes_record_before_removal [where e = ?up and m = member7_video and s = pending7]
  have 1: "map_of (task_cache (snd (revoke_streaming_permission ?up member7_video pending7)))
             (member_id member7_video) = None
           \<and> trace (snd (revoke_streaming_permission ?up member7_video pending7))
               = trace pending7 @ [Cache_delete (member_id member7_video),
                                   Remove_roles (member_id member7_video) (Roles_video ?up)]"
    by blast
  from down revoke_deletes_record_before_removal [where e = ?down and m = member7_video and s = pending7]
  have 2: "revoke_streaming_permission ?down member7_video pending7
             = (Inl RedisError, emit (Cache_delete (member_id member7_video)) pending7)"
    by blast
  from late revoke_deletes_record_before_removal
              [where e = ?late and m = member7 and s = pending7 and k = 7 and t = ?t]
  have 3: "trace (fire ?late 7 pending7)
             = trace pending7 @ [Cache_delete (member_id member7),
                                 Remove_roles (member_id member7) (Roles_video ?late)]"
    by metis
  from up down late 1 2 3 show ?thesis
    by (simp add: quiet_env_def member7_def member7_video_def pending7_def emit_def)
qed

subsection \<open>Arming\<close>




subsection \<open>Firing\<close>

text \<open>
  C4. When the timer of a pending revocation fires and the delete on the store goes
  through, the record of the member is absent afterwards and the task is no longer pending,
  whether the role removal succeeds or raises: nothing is assumed about
  \<^verbatim>\<open>remove_roles\<close>, and the outcome of the action is the removal's.
\<close>

theorem fire_deletes_record_regardless:
  assumes "map_of (scheduler s) k = Some t" and "elapsed e t"
    and "coro t = Revoke_streaming_permission m"
    and "\<not> delete_raises e (member_id m)"
  shows "map_of (task_cache (fire e k s)) (member_id m) = None
       \<and> \<not> contains k (fire e k s)
       \<and> fst (run_coroutine e (coro t) s)
           = (if remove_roles_raises e (member_id m) then Inl HTTPException else Inr ())
       \<and> trace (fire e k s)
           = trace s @ [Cache_delete (member_id m), Remove_roles (member_id m) (Roles_video e)]"
  using assms
  by (simp add: fire_def revoke_streaming_permission_def prims Let_def contains_def
        AList.delete_conv')

text \<open>The timer of member 7 fires at 6000 while Discord refuses the role removal.\<close>

theorem fire_deletes_record_regardless_witness:
  "map_of (scheduler pending7) 7
     = Some \<lparr>due_at = 5000, armed_at = 1000,
             coro = Revoke_streaming_permission \<lparr>member_id = 7, member_roles = []\<rparr>\<rparr>
   \<and> remove_roles_raises (quiet_env\<lparr>utcnow := 6000, remove_roles_raises := (\<lambda>_. True)\<rparr>) 7
   \<and> map_of (task_cache (fire (quiet_env\<lparr>utcnow := 6000, remove_roles_raises := (\<lambda>_. True)\<rparr>) 7 pending7)) 7 = None
   \<and> \<not> contains 7 (fire (quiet_env\<lparr>utcnow := 6000, remove_roles_raises := (\<lambda>_. True)\<rparr>) 7 pending7)
   \<and> trace (fire (quiet_env\<lparr>utcnow := 6000, remove_roles_raises := (\<lambda>_. True)\<rparr>) 7 pending7)
       = [Cache_delete 7, Remove_roles 7 9]"
  using fire_deletes_record_regardless
          [where s = pending7 and k = 7
             and t = "\<lparr>due_at = 5000, armed_at = 1000,
                        coro = Revoke_streaming_permission \<lparr>member_id = 7, member_roles = []\<rparr>\<rparr>"
             and e = "quiet_env\<lparr>utcnow := 6000, remove_roles_raises := (\<lambda>_. True)\<rparr>"
             and m = "\<lparr>member_id = 7, member_roles = []\<rparr>"]
  by (simp add: pending7_def quiet_env_def elapsed_def timer_delay_def)

subsection \<open>Cancelling\<close>



text \<open>
  C9. Cancelling a task id that is not pending, or one whose timer has just fired, leaves
  the scheduler and the store as they are, and \<^verbatim>\<open>cancel\<close> has no error result.
  \<^verbatim>\<open>revokestream\<close> issues a cancel exactly when the member holds the role and is
  pending; for a holder who is not pending it issues none and, when Redis and Discord
  answer, completes after the delete, the role removal and the reply.
\<close>

theorem cancel_only_when_pending:
  "(\<not> contains k s \<longrightarrow>
      scheduler (cancel k s) = scheduler s \<and> task_cache (cancel k s) = task_cache s)
   \<and> (map_of (scheduler s) k = Some t \<and> elapsed e t \<longrightarrow>
        scheduler (cancel k (fire e k s)) = scheduler (fire e k s)
        \<and> task_cache (cancel k (fire e k s)) = task_cache (fire e k s))
   \<and> (Cancel (member_id m) \<in> set (drop (length (trace s)) (trace (snd (revokestream e m s))))
        \<longleftrightarrow> already_allowed e m \<and> contains (member_id m) s)
   \<and> (already_allowed e m \<and> \<not> contains (member_id m) s
        \<and> \<not> delete_raises e (member_id m) \<and> \<not> remove_roles_raises e (member_id m)
        \<and> \<not> send_raises e \<longrightarrow>
        fst (revokestream e m s) = Inr ()
        \<and> trace (snd (revokestream e m s))
            = trace s @ [Cache_delete (member_id m), Remove_roles (member_id m) (Roles_video e),
                         Send Revoked])"
proof -
  have a: "\<not> contains k s \<longrightarrow>
      scheduler (cancel k s) = scheduler s \<and> task_cache (cancel k s) = task_cache s"
    by (simp add: contains_def cancel_def emit_def delete_not_pending)
  have b: "map_of (scheduler s) k = Some t \<and> elapsed e t \<longrightarrow>
        scheduler (cancel k (fire e k s)) = scheduler (fire e k s)
        \<and> task_cache (cancel k (fire e k s)) = task_cache (fire e k s)"
    by (simp add: fire_def cancel_def emit_def Let_def AList.delete_idem)
  have c: "Cancel (member_id m) \<in> set (drop (length (trace s)) (trace (snd (revokestream e m s))))
        \<longleftrightarrow> already_allowed e m \<and> contains (member_id m) s"
    by (simp add: revokestream_def revoke_streaming_permission_def prims Let_def)
  have d: "already_allowed e m \<and> \<not> contains (member_id m) s
        \<and> \<not> delete_raises e (member_id m) \<and> \<not> remove_roles_raises e (member_id m)
        \<and> \<not> send_raises e \<longrightarrow>
        fst (revokestream e m s) = Inr ()
        \<and> trace (snd (revokestream e m s))
            = trace s @ [Cache_delete (member_id m), Remove_roles (member_id m) (Roles_video e),
                         Send Revoked]"
    by (simp add: revokestream_def revoke_streaming_permission_def prims Let_def)
  from a b c d show ?thesis by blast
qed

text \<open>
  Cancelling member 7 on a fresh cog and after the timer has fired; revoking a permanent
  holder.
\<close>

theorem cancel_only_when_pending_witness:
  "\<not> contains 7 (Stream_init [])
   \<and> scheduler (cancel 7 (Stream_init [])) = scheduler (Stream_init [])
   \<and> map_of (scheduler pending7) 7
       = Some \<lparr>due_at = 5000, armed_at = 1000,
               coro = Revoke_streaming_permission \<lparr>member_id = 7, member_roles = []\<rparr>\<rparr>
   \<and> elapsed (quiet_env\<lparr>utcnow := 6000\<rparr>)
        \<lparr>due_at = 5000, armed_at = 1000,
          coro = Revoke_streaming_permission \<lparr>member_id = 7, member_roles = []\<rparr>\<rparr>
   \<and> scheduler (cancel 7 (fire (quiet_env\<lparr>utcnow := 6000\<rparr>) 7 pending7))
       = scheduler (fire (quiet_env\<lparr>utcnow := 6000\<rparr>) 7 pending7)
   \<and> already_allowed quiet_env member7_video
   \<and> Cancel 7 \<notin> set (trace (snd (revokestream quiet_env member7_video (Stream_init []))))
   \<and> fst (revokestream quiet_env member7_video (Stream_init [])) = Inr ()
   \<and> trace (snd (revokestream quiet_env member7_video (Stream_init [])))
       = [Cache_delete 7, Remove_roles 7 9, Send Revoked]"
  using cancel_only_when_pending
          [where k = 7 and s = "Stream_init []" and m = member7_video and e = quiet_env]
        cancel_only_when_pending
          [where k = 7 and s = pending7 and m = member7_video
             and e = "quiet_env\<lparr>utcnow := 6000\<rparr>"
             and t = "\<lparr>due_at = 5000, armed_at = 1000,
                        coro = Revoke_streaming_permission \<lparr>member_id = 7, member_roles = []\<rparr>\<rparr>"]
  by (simp add: contains_def Stream_init_def pending7_def quiet_env_def member7_video_def
        already_allowed_def elapsed_def timer_delay_def)

subsection \<open>Reconciliation at startup\<close>

text \<open>
  C3. When the reload comes to a persisted record whose member is neither in the guild cache
  nor found by \<^verbatim>\<open>fetch_member\<close> (\<^verbatim>\<open>NotFound\<close>), and the store accepts the delete,
  the record is deleted, no timer is armed for the member, and the reload goes on with the
  entries that follow, from the state in which the record is gone. At the end the record is
  absent, the scheduler holds for the member what it held before, and no
  \<^verbatim>\<open>schedule_at\<close> was issued for the member.
\<close>

theorem reload_prunes_missing_member:
  assumes "task_cache s = pre @ (X, T) # post"
    and "get_member e X = None" and "fetch_member e X = Inl NotFound"
    and "\<not> items_raises e" and "\<not> delete_raises e X"
    and "fst (reload_loop e pre (emit Cache_items s)) = Inr ()"
  shows "reload_step e X T (snd (reload_loop e pre (emit Cache_items s)))
           = (Inr (), snd (cache_delete e X (snd (reload_loop e pre (emit Cache_items s)))))
       \<and> reload_tasks_from_redis e s
           = reload_loop e post
               (snd (cache_delete e X (snd (reload_loop e pre (emit Cache_items s)))))
       \<and> map_of (task_cache (snd (cache_delete e X (snd (reload_loop e pre (emit Cache_items s)))))) X
           = None
       \<and> map_of (task_cache (snd (reload_tasks_from_redis e s))) X = None
       \<and> map_of (scheduler (snd (reload_tasks_from_redis e s))) X = map_of (scheduler s) X
       \<and> (Schedule_at t X \<notin> set (trace s)
            \<longrightarrow> Schedule_at t X \<notin> set (trace (snd (reload_tasks_from_redis e s))))"
proof -
  let ?s0 = "emit Cache_items s"
  let ?s1 = "snd (reload_loop e pre ?s0)"
  let ?s2 = "snd (cache_delete e X ?s1)"
  have del: "cache_delete e X ?s1 = (Inr (), ?s2)"
    using assms(5) by (simp add: cache_delete_def Let_def)
  have here: "reload_step e X T ?s1 = (Inr (), ?s2)"
    using assms(2,3) del by (simp add: step_not_found)
  have run: "reload_tasks_from_redis e s = reload_loop e (pre @ (X, T) # post) ?s0"
    using assms(1,4) by (simp add: reload_tasks_unfold)
  have on: "reload_loop e (pre @ (X, T) # post) ?s0 = reload_loop e post ?s2"
    using assms(6) here by (simp add: reload_loop_reached)
  have gone: "map_of (task_cache ?s2) X = None"
    using assms(5) by (simp add: cache_delete_def Let_def AList.delete_conv')
  then have absent: "map_of (task_cache (snd (reload_loop e post ?s2))) X = None"
    by (rule loop_cache_absent_stays)
  have unres: "\<forall>m. fetch_member e X \<noteq> Inr m" using assms(3) by simp
  have idle: "map_of (scheduler (snd (reload_loop e (pre @ (X, T) # post) ?s0))) X
                = map_of (scheduler ?s0) X"
    using assms(2) unres by (simp add: loop_not_armed)
  have quiet: "Schedule_at t X \<notin> set (trace s)
                 \<longrightarrow> Schedule_at t X \<notin> set (trace (snd (reload_loop e (pre @ (X, T) # post) ?s0)))"
  proof
    assume "Schedule_at t X \<notin> set (trace s)"
    then have "Schedule_at t X \<notin> set (trace ?s0)" by (simp add: emit_def)
    with assms(2) unres show "Schedule_at t X \<notin> set (trace (snd (reload_loop e (pre @ (X, T) # post) ?s0)))"
      by (rule loop_trace_no_schedule)
  qed
  from here on gone absent idle quiet show ?thesis unfolding run by simp
qed

text \<open>
  Member 2 has left. Its record comes third; the reload deletes it and goes on to arm
  members 3 and 6, which come after it.
\<close>

theorem reload_prunes_missing_member_witness:
  "task_cache (Stream_init persisted5) = [(5, 5000), (4, 9000)] @ (2, 500) # [(3, 700), (6, 8000)]
   \<and> fst (reload_loop restart_env [(5, 5000), (4, 9000)] (emit Cache_items (Stream_init persisted5)))
       = Inr ()
   \<and> fst (reload_tasks_from_redis restart_env (Stream_init persisted5)) = Inr ()
   \<and> map_of (task_cache (snd (reload_tasks_from_redis restart_env (Stream_init persisted5)))) 2 = None
   \<and> map_of (scheduler (snd (reload_tasks_from_redis restart_env (Stream_init persisted5)))) 2 = None
   \<and> contains 3 (snd (reload_tasks_from_redis restart_env (Stream_init persisted5)))
   \<and> contains 6 (snd (reload_tasks_from_redis restart_env (Stream_init persisted5)))"
proof -
  have split: "task_cache (Stream_init persisted5)
                 = [(5, 5000), (4, 9000)] @ (2, 500) # [(3, 700), (6, 8000)]"
    by (simp add: restart_state)
  note t = reload_prunes_missing_member
             [OF split restart_env_answers(2) restart_env_answers(3) restart_env_answers(10)
                 restart_env_answers(11) restart_reaches_2]
  from t have run: "reload_tasks_from_redis restart_env (Stream_init persisted5)
           = reload_loop restart_env [(3, 700), (6, 8000)]
               (snd (cache_delete restart_env 2
                  (snd (reload_loop restart_env [(5, 5000), (4, 9000)]
                          (emit Cache_items (Stream_init persisted5))))))"
    by blast
  have rest: "fst (reload_tasks_from_redis restart_env (Stream_init persisted5)) = Inr ()
      \<and> contains 3 (snd (reload_tasks_from_redis restart_env (Stream_init persisted5)))
      \<and> contains 6 (snd (reload_tasks_from_redis restart_env (Stream_init persisted5)))"
    unfolding run by (simp add: restart_eval contains_def)
  from t have "map_of (scheduler (snd (reload_tasks_from_redis restart_env (Stream_init persisted5)))) 2
                 = map_of (scheduler (Stream_init persisted5)) 2"
    by blast
  then have idle: "map_of (scheduler (snd (reload_tasks_from_redis restart_env (Stream_init persisted5)))) 2
                     = None"
    by (simp add: restart_state)
  from t have gone: "map_of (task_cache (snd (reload_tasks_from_redis restart_env (Stream_init persisted5)))) 2
                       = None"
    by blast
  from split restart_reaches_2 rest idle gone show ?thesis by blast
qed

text \<open>
  C6. When \<^verbatim>\<open>fetch_member\<close> fails with an \<^verbatim>\<open>HTTPException\<close> other than
  \<^verbatim>\<open>NotFound\<close>, the loop goes on with the remaining entries exactly as if the entry were
  not in the snapshot: when the reload comes to the entry, it takes up the entries that
  follow from the very state in which it met the entry. The record of that member is as it
  was and no timer is armed for it.
\<close>

theorem reload_skips_transient_failure:
  assumes "get_member e X = None" and "fetch_member e X = Inl Other_HTTPException"
  shows "reload_loop e (pre @ (X, T) # post) s = reload_loop e (pre @ post) s
       \<and> map_of (task_cache (snd (reload_tasks_from_redis e s))) X = map_of (task_cache s) X
       \<and> map_of (scheduler (snd (reload_tasks_from_redis e s))) X = map_of (scheduler s) X
       \<and> reload_step e X T s = (Inr (), s)
       \<and> (task_cache s = pre @ (X, T) # post \<and> \<not> items_raises e
            \<and> fst (reload_loop e pre (emit Cache_items s)) = Inr () \<longrightarrow>
            reload_tasks_from_redis e s
              = reload_loop e post (snd (reload_loop e pre (emit Cache_items s))))"
proof -
  let ?s0 = "emit Cache_items s"
  have here: "reload_step e X T s' = (Inr (), s')" for s'
    using assms by (rule step_transient)
  then have skip: "reload_loop e ((X, T) # post) s' = reload_loop e post s'" for s'
    by simp
  have a: "reload_loop e (pre @ (X, T) # post) s = reload_loop e (pre @ post) s"
    by (simp only: reload_loop_append[of e pre "(X, T) # post"] reload_loop_append[of e pre post]
          skip)
  have unres: "\<forall>m. fetch_member e X \<noteq> Inr m" using assms(2) by simp
  have b: "map_of (task_cache (snd (reload_tasks_from_redis e s))) X = map_of (task_cache s) X"
    using assms by (simp add: reload_tasks_unfold loop_cache_kept)
  have c: "map_of (scheduler (snd (reload_tasks_from_redis e s))) X = map_of (scheduler s) X"
    using assms(1) unres by (simp add: reload_tasks_unfold loop_not_armed)
  have d: "task_cache s = pre @ (X, T) # post \<and> \<not> items_raises e
            \<and> fst (reload_loop e pre ?s0) = Inr () \<longrightarrow>
            reload_tasks_from_redis e s = reload_loop e post (snd (reload_loop e pre ?s0))"
    by (simp add: reload_tasks_unfold reload_loop_reached here)
  from a b c d here show ?thesis by blast
qed

text \<open>
  Discord fails on member 4, whose record comes second. The record stays, member 4 is not
  armed, and the reload goes on: it deletes the record of member 2 and arms members 3 and 6.
\<close>

theorem reload_skips_transient_failure_witness:
  "task_cache (Stream_init persisted5) = [(5, 5000)] @ (4, 9000) # [(2, 500), (3, 700), (6, 8000)]
   \<and> fst (reload_loop restart_env [(5, 5000)] (emit Cache_items (Stream_init persisted5))) = Inr ()
   \<and> map_of (task_cache (snd (reload_tasks_from_redis restart_env (Stream_init persisted5)))) 4
       = Some 9000
   \<and> map_of (scheduler (snd (reload_tasks_from_redis restart_env (Stream_init persisted5)))) 4 = None
   \<and> fst (reload_tasks_from_redis restart_env (Stream_init persisted5)) = Inr ()
   \<and> map_of (task_cache (snd (reload_tasks_from_redis restart_env (Stream_init persisted5)))) 2 = None
   \<and> contains 3 (snd (reload_tasks_from_redis restart_env (Stream_init persisted5)))
   \<and> contains 6 (snd (reload_tasks_from_redis restart_env (Stream_init persisted5)))"
proof -
  have split: "task_cache (Stream_init persisted5)
                 = [(5, 5000)] @ (4, 9000) # [(2, 500), (3, 700), (6, 8000)]"
    by (simp add: restart_state)
  note t = reload_skips_transient_failure
             [OF restart_env_answers(6) restart_env_answers(7),
              where pre = "[(5, 5000)]" and T = 9000 and post = "[(2, 500), (3, 700), (6, 8000)]"
                and s = "Stream_init persisted5"]
  from t split restart_env_answers(10) restart_reaches_4
  have run: "reload_tasks_from_redis restart_env (Stream_init persisted5)
           = reload_loop restart_env [(2, 500), (3, 700), (6, 8000)]
               (snd (reload_loop restart_env [(5, 5000)]
                       (emit Cache_items (Stream_init persisted5))))"
    by blast
  have rest: "fst (reload_tasks_from_redis restart_env (Stream_init persisted5)) = Inr ()
      \<and> map_of (task_cache (snd (reload_tasks_from_redis restart_env (Stream_init persisted5)))) 2
          = None
      \<and> contains 3 (snd (reload_tasks_from_redis restart_env (Stream_init persisted5)))
      \<and> contains 6 (snd (reload_tasks_from_redis restart_env (Stream_init persisted5)))"
    unfolding run by (simp add: restart_eval contains_def)
  from t have "map_of (task_cache (snd (reload_tasks_from_redis restart_env (Stream_init persisted5)))) 4
                 = map_of (task_cache (Stream_init persisted5)) 4"
    by blast
  then have kept: "map_of (task_cache (snd (reload_tasks_from_redis restart_env (Stream_init persisted5)))) 4
                 = Some 9000"
    by (simp add: restart_state)
  from t have "map_of (scheduler (snd (reload_tasks_from_redis restart_env (Stream_init persisted5)))) 4
                 = map_of (scheduler (Stream_init persisted5)) 4"
    by blast
  then have idle: "map_of (scheduler (snd (reload_tasks_from_redis restart_env (Stream_init persisted5)))) 4
                     = None"
    by (simp add: restart_state)
  from split restart_reaches_4 rest kept idle show ?thesis by blast
qed

text \<open>
  C8. When the reload comes to a persisted record that is already past due and whose member
  resolves, it does what it does for any other record: the pass ends without an exception,
  \<^verbatim>\<open>schedule_at\<close> is called with the persisted due time, and the reload goes on with
  the entries that follow. On the side of the scheduler, the timer so armed has delay zero
  and has elapsed at that very instant, and when it fires the action runs: the delete of the
  record is issued, then the role removal, and the task is no longer pending.
\<close>

theorem reload_arms_past_due:
  assumes "distinct (map fst (task_cache s))" and "task_cache s = pre @ (Z, T) # post"
    and "resolves e Z m" and "utcfromtimestamp T = Inr D" and "D \<le> utcnow e"
    and "\<not> items_raises e" and "fst (reload_loop e pre (emit Cache_items s)) = Inr ()"
  shows "reload_step e Z T (snd (reload_loop e pre (emit Cache_items s)))
           = (Inr (), schedule_at e D Z (Revoke_streaming_permission m)
                        (snd (reload_loop e pre (emit Cache_items s))))
       \<and> reload_tasks_from_redis e s
           = reload_loop e post
               (schedule_at e D Z (Revoke_streaming_permission m)
                  (snd (reload_loop e pre (emit Cache_items s))))
       \<and> map_of (scheduler (snd (reload_tasks_from_redis e s))) Z
           = Some \<lparr>due_at = D, armed_at = utcnow e, coro = Revoke_streaming_permission m\<rparr>
       \<and> timer_delay \<lparr>due_at = D, armed_at = utcnow e,
                       coro = Revoke_streaming_permission m\<rparr> = 0
       \<and> elapsed e \<lparr>due_at = D, armed_at = utcnow e, coro = Revoke_streaming_permission m\<rparr>
       \<and> \<not> contains Z (fire e Z (snd (reload_tasks_from_redis e s)))
       \<and> trace (fire e Z (snd (reload_tasks_from_redis e s)))
           = trace (snd (reload_tasks_from_redis e s))
               @ Cache_delete (member_id m)
                 # (if delete_raises e (member_id m) then []
                    else [Remove_roles (member_id m) (Roles_video e)])"
proof -
  let ?s0 = "emit Cache_items s"
  let ?s1 = "snd (reload_loop e pre ?s0)"
  let ?s2 = "schedule_at e D Z (Revoke_streaming_permission m) ?s1"
  let ?t = "\<lparr>due_at = D, armed_at = utcnow e, coro = Revoke_streaming_permission m\<rparr>"
  have here: "reload_step e Z T ?s1 = (Inr (), ?s2)"
    using assms(3,4) by (simp add: step_resolved schedule_reloaded_decoded)
  have run: "reload_tasks_from_redis e s = reload_loop e post ?s2"
    using assms(2,6,7) here by (simp add: reload_tasks_unfold reload_loop_reached)
  from assms(1,2) have fresh: "Z \<notin> fst ` set post" by auto
  have "map_of (scheduler ?s2) Z = Some ?t"
    by (simp add: schedule_at_def emit_def)
  moreover from fresh have "map_of (scheduler (snd (reload_loop e post ?s2))) Z
                              = map_of (scheduler ?s2) Z"
    by (simp add: loop_not_armed)
  ultimately have armed: "map_of (scheduler (snd (reload_tasks_from_redis e s))) Z = Some ?t"
    unfolding run by simp
  have zero: "timer_delay ?t = 0" using assms(5) by (simp add: timer_delay_def)
  have now: "elapsed e ?t" using assms(5) by (simp add: elapsed_def timer_delay_def)
  have gone: "\<not> contains Z (fire e Z (snd (reload_tasks_from_redis e s)))"
    using armed now by (simp add: fire_def contains_def Let_def AList.delete_conv')
  have tr: "trace (fire e Z (snd (reload_tasks_from_redis e s)))
           = trace (snd (reload_tasks_from_redis e s))
               @ Cache_delete (member_id m)
                 # (if delete_raises e (member_id m) then []
                    else [Remove_roles (member_id m) (Roles_video e)])"
    using armed now
    by (simp add: fire_def Let_def revoke_streaming_permission_def prims)
  from here run armed zero now gone tr show ?thesis by blast
qed

text \<open>
  The record of member 3 was due at 700; the reload runs at 1000, comes to it fourth, arms
  it and goes on to member 6.
\<close>

theorem reload_arms_past_due_witness:
  "distinct (map fst (task_cache (Stream_init persisted5)))
   \<and> task_cache (Stream_init persisted5)
       = [(5, 5000), (4, 9000), (2, 500)] @ (3, 700) # [(6, 8000)]
   \<and> utcfromtimestamp 700 = Inr 700 \<and> 700 \<le> utcnow restart_env
   \<and> fst (reload_loop restart_env [(5, 5000), (4, 9000), (2, 500)]
            (emit Cache_items (Stream_init persisted5))) = Inr ()
   \<and> map_of (scheduler (snd (reload_tasks_from_redis restart_env (Stream_init persisted5)))) 3
       = Some \<lparr>due_at = 700, armed_at = 1000,
               coro = Revoke_streaming_permission \<lparr>member_id = 3, member_roles = [9]\<rparr>\<rparr>
   \<and> contains 6 (snd (reload_tasks_from_redis restart_env (Stream_init persisted5)))
   \<and> \<not> contains 3 (fire restart_env 3
                      (snd (reload_tasks_from_redis restart_env (Stream_init persisted5))))
   \<and> trace (fire restart_env 3
              (snd (reload_tasks_from_redis restart_env (Stream_init persisted5))))
       = trace (snd (reload_tasks_from_redis restart_env (Stream_init persisted5)))
           @ [Cache_delete 3, Remove_roles 3 9]"
proof -
  have d: "distinct (map fst (task_cache (Stream_init persisted5)))"
    by (simp add: restart_state)
  have split: "task_cache (Stream_init persisted5)
                 = [(5, 5000), (4, 9000), (2, 500)] @ (3, 700) # [(6, 8000)]"
    by (simp add: restart_state)
  have res: "resolves restart_env 3 \<lparr>member_id = 3, member_roles = [9]\<rparr>"
    by (simp add: resolves_def restart_env_answers)
  have dec: "utcfromtimestamp 700 = Inr 700"
    by (simp add: time_defs)
  have past: "700 \<le> utcnow restart_env"
    by (simp add: restart_env_answers)
  note t = reload_arms_past_due
             [OF d split res dec past restart_env_answers(10) restart_reaches_3]
  from t have run: "reload_tasks_from_redis restart_env (Stream_init persisted5)
           = reload_loop restart_env [(6, 8000)]
               (schedule_at restart_env 700 3
                  (Revoke_streaming_permission \<lparr>member_id = 3, member_roles = [9]\<rparr>)
                  (snd (reload_loop restart_env [(5, 5000), (4, 9000), (2, 500)]
                          (emit Cache_items (Stream_init persisted5)))))"
    by blast
  have on: "contains 6 (snd (reload_tasks_from_redis restart_env (Stream_init persisted5)))"
    unfolding run by (simp add: restart_eval contains_def)
  from t have armed: "map_of (scheduler (snd (reload_tasks_from_redis restart_env (Stream_init persisted5)))) 3
           = Some \<lparr>due_at = 700, armed_at = utcnow restart_env,
                   coro = Revoke_streaming_permission \<lparr>member_id = 3, member_roles = [9]\<rparr>\<rparr>"
    and gone: "\<not> contains 3 (fire restart_env 3
                      (snd (reload_tasks_from_redis restart_env (Stream_init persisted5))))"
    and tr: "trace (fire restart_env 3
              (snd (reload_tasks_from_redis restart_env (Stream_init persisted5))))
           = trace (snd (reload_tasks_from_redis restart_env (Stream_init persisted5)))
               @ Cache_delete (member_id \<lparr>member_id = 3, member_roles = [9]\<rparr>)
                 # (if delete_raises restart_env (member_id \<lparr>member_id = 3, member_roles = [9]\<rparr>)
                    then []
                    else [Remove_roles (member_id \<lparr>member_id = 3, member_roles = [9]\<rparr>)
                            (Roles_video restart_env)])"
    by blast+
  from d split dec past restart_reaches_3 on armed gone tr show ?thesis
    by (simp add: restart_env_answers)
qed

subsection \<open>The expiry across a restart\<close>

text \<open>
  The record is written as \<^verbatim>\<open>duration.timestamp()\<close>, which reads the naive UTC expiry
  as local time, and read back with \<^verbatim>\<open>utcfromtimestamp\<close>: the round trip subtracts the
  host's offset from UTC.
\<close>

lemma timestamp_round_trip:
  "timestamp e d = Inr posix \<Longrightarrow> utcfromtimestamp posix = Inr d' \<Longrightarrow>
     d' = d - utc_offset e * 1000000"
  by (auto simp: utcfromtimestamp_def timestamp_def split: if_splits)

text \<open>
  C2, on a host one hour east of UTC. At 12:00 UTC member 7 is granted the permission until
  13:00 UTC and the timer is armed for 13:00. The record holds the timestamp of 12:00 UTC,
  and the reload after a restart arms member 7 with 12:00, an hour before the expiry that
  was granted.
\<close>

theorem reload_shifts_expiry_off_utc:
  "map_of (scheduler (snd (stream utc_plus_one_env member7 (Some 1609506000000000) (Stream_init [])))) 7
     = Some \<lparr>due_at = 1609506000000000, armed_at = 1609502400000000,
             coro = Revoke_streaming_permission member7\<rparr>
   \<and> task_cache (snd (stream utc_plus_one_env member7 (Some 1609506000000000) (Stream_init [])))
     = [(7, 1609502400000000)]
   \<and> map_of (scheduler (snd (reload_tasks_from_redis utc_plus_one_env
        (Stream_init (task_cache
           (snd (stream utc_plus_one_env member7 (Some 1609506000000000) (Stream_init [])))))))) 7
     = Some \<lparr>due_at = 1609502400000000, armed_at = 1609502400000000,
             coro = Revoke_streaming_permission member7_video\<rparr>"
  by (simp add: stream_def already_allowed_def prims Let_def quiet_env_def member7_def
        utc_plus_one_env_def Stream_init_def time_defs
        reload_tasks_from_redis_def reload_step_def schedule_reloaded_def)

subsection \<open>One pending revocation per member\<close>

text \<open>
  Two \<^verbatim>\<open>stream\<close> commands for member 7 in a row, the second one to extend the
  permission to 9000. The member holds the video role by then, so the second command is
  refused: the timer and the record still say 5000.
\<close>

theorem second_stream_refused_counterexample:
  "scheduler (run [(quiet_env, Stream member7 (Some 5000))] (Stream_init []))
     = [(7, \<lparr>due_at = 5000, armed_at = 1000, coro = Revoke_streaming_permission member7\<rparr>)]
   \<and> scheduler (run [(quiet_env, Stream member7 (Some 5000)),
                     (quiet_env\<lparr>utcnow := 2000\<rparr>, Stream member7_video (Some 9000))]
                  (Stream_init []))
     = [(7, \<lparr>due_at = 5000, armed_at = 1000, coro = Revoke_streaming_permission member7\<rparr>)]
   \<and> task_cache (run [(quiet_env, Stream member7 (Some 5000)),
                      (quiet_env\<lparr>utcnow := 2000\<rparr>, Stream member7_video (Some 9000))]
                  (Stream_init []))
     = [(7, 5000)]
   \<and> trace (run [(quiet_env, Stream member7 (Some 5000)),
                 (quiet_env\<lparr>utcnow := 2000\<rparr>, Stream member7_video (Some 9000))]
                  (Stream_init []))
     = [Schedule_at 5000 7, Cache_set 7 5000, Add_roles 7 9, Send (Can_now_stream 5000),
        Send Already_can_stream]"
  by (simp add: stream_def already_allowed_def prims Let_def quiet_env_def member7_def
        member7_video_def Stream_init_def time_defs)

text \<open>
  C5, amended. After any sequence of calls on a freshly started cog, at most one task is
  pending per member. \<^verbatim>\<open>stream\<close> for a member who already holds the video role is
  refused with a reply, and the timer and the record of that member stay as they are. For
  a member who does not hold the role, \<^verbatim>\<open>stream\<close> arms: the new task is the only one
  pending for the member, whatever was pending before, and when the persist goes through
  the record of the member is the value that this command has just written.
\<close>

theorem one_pending_stream_refuses_holder:
  "length (filter (\<lambda>p. fst p = k) (scheduler (run calls (Stream_init persisted)))) \<le> 1
   \<and> (already_allowed e m \<and> duration_or_default e duration = Inr d \<longrightarrow>
        scheduler (snd (stream e m duration s)) = scheduler s
        \<and> task_cache (snd (stream e m duration s)) = task_cache s
        \<and> trace (snd (stream e m duration s)) = trace s @ [Send Already_can_stream])
   \<and> (\<not> already_allowed e m \<and> duration_or_default e duration = Inr d \<longrightarrow>
        filter (\<lambda>p. fst p = member_id m) (scheduler (snd (stream e m duration s)))
          = [(member_id m, \<lparr>due_at = d, armed_at = utcnow e,
                            coro = Revoke_streaming_permission m\<rparr>)]
        \<and> (\<not> set_raises e (member_id m)
             \<and> Cache_set (member_id m) v
                 \<in> set (drop (length (trace s)) (trace (snd (stream e m duration s)))) \<longrightarrow>
             map_of (task_cache (snd (stream e m duration s))) (member_id m) = Some v))"
proof -
  have "distinct (map fst (scheduler (Stream_init persisted)))"
    by (simp add: Stream_init_def)
  then have "distinct (map fst (scheduler (run calls (Stream_init persisted))))"
    by (rule run_keeps_distinct)
  then have a: "length (filter (\<lambda>p. fst p = k) (scheduler (run calls (Stream_init persisted)))) \<le> 1"
    by (rule distinct_at_most_one)
  have b: "already_allowed e m \<and> duration_or_default e duration = Inr d \<longrightarrow>
        scheduler (snd (stream e m duration s)) = scheduler s
        \<and> task_cache (snd (stream e m duration s)) = task_cache s
        \<and> trace (snd (stream e m duration s)) = trace s @ [Send Already_can_stream]"
    by (simp add: stream_def prims Let_def)
  have c: "\<not> already_allowed e m \<and> duration_or_default e duration = Inr d \<longrightarrow>
        filter (\<lambda>p. fst p = member_id m) (scheduler (snd (stream e m duration s)))
          = [(member_id m, \<lparr>due_at = d, armed_at = utcnow e,
                            coro = Revoke_streaming_permission m\<rparr>)]"
    by (simp add: stream_scheduler schedule_at_def filter_key_delete)
  have d: "\<not> already_allowed e m \<and> duration_or_default e duration = Inr d
        \<and> \<not> set_raises e (member_id m)
        \<and> Cache_set (member_id m) v
            \<in> set (drop (length (trace s)) (trace (snd (stream e m duration s)))) \<longrightarrow>
        map_of (task_cache (snd (stream e m duration s))) (member_id m) = Some v"
  proof (intro impI, elim conjE)
    assume h: "\<not> already_allowed e m" "duration_or_default e duration = Inr d"
      "\<not> set_raises e (member_id m)"
      and w: "Cache_set (member_id m) v
                \<in> set (drop (length (trace s)) (trace (snd (stream e m duration s))))"
    show "map_of (task_cache (snd (stream e m duration s))) (member_id m) = Some v"
    proof (cases "timestamp e d")
      case (Inl x)
      with h have "drop (length (trace s)) (trace (snd (stream e m duration s)))
                     = [Schedule_at d (member_id m)]"
        by (simp add: stream_def prims Let_def)
      with w show ?thesis by simp
    next
      case (Inr ts)
      with h have "set (drop (length (trace s)) (trace (snd (stream e m duration s))))
                     \<subseteq> {Schedule_at d (member_id m), Cache_set (member_id m) ts,
                          Add_roles (member_id m) (Roles_video e), Send (Can_now_stream d)}"
        and "map_of (task_cache (snd (stream e m duration s))) (member_id m) = Some ts"
        by (simp_all add: stream_def prims Let_def AList.update_conv')
      with w show ?thesis by auto
    qed
  qed
  from a b c d show ?thesis by blast
qed

text \<open>
  Member 7 is pending: holding the role, the command is refused; without the role, the
  pending task is superseded and the record replaced.
\<close>

theorem one_pending_stream_refuses_holder_witness:
  "already_allowed quiet_env member7_video
   \<and> scheduler (snd (stream quiet_env member7_video (Some 9000) pending7)) = scheduler pending7
   \<and> task_cache (snd (stream quiet_env member7_video (Some 9000) pending7)) = task_cache pending7
   \<and> \<not> already_allowed (quiet_env\<lparr>utcnow := 2000\<rparr>) member7
   \<and> filter (\<lambda>p. fst p = 7)
        (scheduler (snd (stream (quiet_env\<lparr>utcnow := 2000\<rparr>) member7 (Some 9000) pending7)))
       = [(7, \<lparr>due_at = 9000, armed_at = 2000, coro = Revoke_streaming_permission member7\<rparr>)]
   \<and> Cache_set 7 9000
       \<in> set (trace (snd (stream (quiet_env\<lparr>utcnow := 2000\<rparr>) member7 (Some 9000) pending7)))
   \<and> map_of (task_cache (snd (stream (quiet_env\<lparr>utcnow := 2000\<rparr>) member7 (Some 9000) pending7))) 7
       = Some 9000
   \<and> length (filter (\<lambda>p. fst p = 7)
        (scheduler (run [(quiet_env, Stream member7 (Some 5000)),
                         (quiet_env, Stream member7 (Some 9000))] (Stream_init [])))) \<le> 1"
proof -
  let ?late = "quiet_env\<lparr>utcnow := 2000\<rparr>"
  have holder: "already_allowed quiet_env member7_video
                \<and> duration_or_default quiet_env (Some 9000) = Inr 9000"
    by (simp add: already_allowed_def quiet_env_def member7_video_def duration_or_default_def)
  have plain: "\<not> already_allowed ?late member7
               \<and> duration_or_default ?late (Some 9000) = Inr 9000"
    by (simp add: already_allowed_def quiet_env_def member7_def duration_or_default_def)
  have wrote: "\<not> set_raises ?late (member_id member7)
               \<and> Cache_set (member_id member7) 9000
                   \<in> set (drop (length (trace pending7))
                            (trace (snd (stream ?late member7 (Some 9000) pending7))))"
    by (simp add: stream_def already_allowed_def prims Let_def quiet_env_def member7_def
          pending7_def time_defs)
  note a = one_pending_stream_refuses_holder
             [where e = quiet_env and m = member7_video and duration = "Some 9000" and d = 9000
                and s = pending7 and k = 7 and persisted = "[]"
                and calls = "[(quiet_env, Stream member7 (Some 5000)),
                              (quiet_env, Stream member7 (Some 9000))]"]
  note b = one_pending_stream_refuses_holder
             [where e = ?late and m = member7 and duration = "Some 9000" and d = 9000
                and s = pending7 and v = 9000]
  from a holder
  have 1: "scheduler (snd (stream quiet_env member7_video (Some 9000) pending7)) = scheduler pending7
           \<and> task_cache (snd (stream quiet_env member7_video (Some 9000) pending7))
               = task_cache pending7"
    and 2: "length (filter (\<lambda>p. fst p = 7)
        (scheduler (run [(quiet_env, Stream member7 (Some 5000)),
                         (quiet_env, Stream member7 (Some 9000))] (Stream_init [])))) \<le> 1"
    by blast+
  from b plain wrote
  have 3: "filter (\<lambda>p. fst p = member_id member7)
        (scheduler (snd (stream ?late member7 (Some 9000) pending7)))
       = [(member_id member7, \<lparr>due_at = 9000, armed_at = utcnow ?late,
                                coro = Revoke_streaming_permission member7\<rparr>)]"
    and 4: "map_of (task_cache (snd (stream ?late member7 (Some 9000) pending7)))
              (member_id member7) = Some 9000"
    by blast+
  from wrote have 5: "Cache_set 7 9000
       \<in> set (trace (snd (stream ?late member7 (Some 9000) pending7)))"
    by (auto simp: member7_def dest: in_set_dropD)
  from holder plain 1 2 3 4 5 show ?thesis
    by (simp add: member7_def quiet_env_def)
qed

end
